theory Spec2Isabelle
  imports Main
begin

section \<open>JavaScript values the components rely on\<close>

text \<open>
  The only runtime error the modelled handlers can raise is the \<^verbatim>\<open>TypeError\<close> of a
  property read on \<^verbatim>\<open>undefined\<close>.
\<close>

datatype js_error = TypeError

text \<open>
  \<^verbatim>\<open>a % b\<close> on integral numbers: \<^verbatim>\<open>NaN\<close> (here \<open>None\<close>) when \<open>b\<close> is zero, otherwise
  the truncated remainder, which takes the sign of the dividend. Array lengths stay far
  below \<open>2^53\<close>, so the doubles of the source are exact and \<open>int\<close> stands for them.
\<close>

definition js_rem :: "int \<Rightarrow> int \<Rightarrow> int option" where
  "js_rem a b = (if b = 0 then None else Some (sgn a * (\<bar>a\<bar> mod \<bar>b\<bar>)))"

text \<open>
  \<^verbatim>\<open>xs[j]\<close>: the element when \<open>j\<close> is an index of the array, \<^verbatim>\<open>undefined\<close> (here
  \<open>None\<close>) when it is out of range or \<^verbatim>\<open>NaN\<close>.
\<close>

definition js_index :: "'a list \<Rightarrow> int option \<Rightarrow> 'a option" where
  "js_index xs j =
     (case j of
        None \<Rightarrow> None
      | Some k \<Rightarrow> if 0 \<le> k \<and> k < int (length xs) then Some (xs ! nat k) else None)"

text \<open>
  \<^verbatim>\<open>Array.prototype.findIndex\<close>: the position of the first element satisfying the
  predicate, counted from the start, and \<open>-1\<close> when there is none.
  \<^verbatim>\<open>Array.prototype.find\<close> is \<^const>\<open>List.find\<close>, with \<open>None\<close> for \<^verbatim>\<open>undefined\<close>.
\<close>

fun findIndex_from :: "('a \<Rightarrow> bool) \<Rightarrow> 'a list \<Rightarrow> int \<Rightarrow> int" where
  "findIndex_from p [] k = - 1"
| "findIndex_from p (x # xs) k = (if p x then k else findIndex_from p xs (k + 1))"

definition findIndex :: "('a \<Rightarrow> bool) \<Rightarrow> 'a list \<Rightarrow> int" where
  "findIndex p xs = findIndex_from p xs 0"

text \<open>\<^verbatim>\<open>a || b\<close> on strings: the empty string is falsy, and so is \<^verbatim>\<open>undefined\<close>.\<close>

definition js_or :: "string option \<Rightarrow> string \<Rightarrow> string" where
  "js_or a b = (case a of None \<Rightarrow> b | Some s \<Rightarrow> if s = [] then b else s)"

text \<open>\<^verbatim>\<open>a ?? b\<close>: only \<^verbatim>\<open>undefined\<close> and \<^verbatim>\<open>null\<close> give way to \<open>b\<close>.\<close>

definition js_nullish :: "string option \<Rightarrow> string \<Rightarrow> string" where
  "js_nullish a b = (case a of None \<Rightarrow> b | Some s \<Rightarrow> s)"


section \<open>The dropdown shared by CategoryFilter and SortFilter\<close>

subsection \<open>Props\<close>

text \<open>
  \<^verbatim>\<open>interface CategoryOption { value: string; label: string }\<close>. The value type is a
  parameter: CategoryFilter uses strings, SortFilter the two-valued \<^verbatim>\<open>SortValue\<close>.
\<close>

record 'v CategoryOption =
  opt_value :: 'v
  label :: string

datatype SortValue = mostRecent | oldest

record sort_labels =
  lbl_mostRecent :: string
  lbl_oldest :: string

text \<open>The option list SortFilter builds on every render from its \<^verbatim>\<open>labels\<close> prop.\<close>

definition sort_options :: "sort_labels \<Rightarrow> SortValue CategoryOption list" where
  "sort_options labels =
     [\<lparr>opt_value = mostRecent, label = lbl_mostRecent labels\<rparr>,
      \<lparr>opt_value = oldest, label = lbl_oldest labels\<rparr>]"

definition default_labels :: sort_labels where
  "default_labels = \<lparr>lbl_mostRecent = ''Most Recent'', lbl_oldest = ''Oldest''\<rparr>"

subsection \<open>Values computed during render\<close>

text \<open>
  \<^verbatim>\<open>const idxSelected = Math.max(0, options.findIndex((o) => o.value === selected))\<close>
\<close>

definition idxSelected :: "'v CategoryOption list \<Rightarrow> 'v \<Rightarrow> int" where
  "idxSelected options selected =
     max 0 (findIndex (\<lambda>opt. opt_value opt = selected) options)"

text \<open>
  CategoryFilter:
  \<^verbatim>\<open>const selectedLabel = options.find((o) => o.value === selected)?.label || placeholder\<close>
\<close>

definition selectedLabel :: "'v CategoryOption list \<Rightarrow> 'v \<Rightarrow> string \<Rightarrow> string" where
  "selectedLabel options selected placeholder =
     js_or (map_option label (find (\<lambda>opt. opt_value opt = selected) options)) placeholder"

text \<open>
  SortFilter:
  \<^verbatim>\<open>const selectedLabel = options[idxSelected]?.label ?? labels.mostRecent\<close>
\<close>

definition sort_selectedLabel :: "sort_labels \<Rightarrow> SortValue \<Rightarrow> string" where
  "sort_selectedLabel labels selected =
     js_nullish
       (map_option label
          (js_index (sort_options labels) (Some (idxSelected (sort_options labels) selected))))
       (lbl_mostRecent labels)"

subsection \<open>What a handler can do\<close>

text \<open>
  A handler runs to completion on one event. It can set \<^verbatim>\<open>isOpen\<close>, move keyboard focus
  to the trigger (\<^verbatim>\<open>btnRef.current?.focus()\<close>), call \<^verbatim>\<open>onChange\<close>, call
  \<^verbatim>\<open>e.preventDefault()\<close>, and throw. The record below is the state these statements
  act on; \<open>calls\<close> holds the arguments of the \<^verbatim>\<open>onChange\<close> calls made so far, oldest
  first.
\<close>

datatype focus = Trigger | ListBox | Elsewhere

record 'v run =
  open_st :: bool
  focus_st :: focus
  calls :: "'v list"
  prevented :: bool
  thrown :: "js_error option"

definition setIsOpen :: "bool \<Rightarrow> 'v run \<Rightarrow> 'v run" where
  "setIsOpen b r = r\<lparr>open_st := b\<rparr>"

definition focus_btn :: "'v run \<Rightarrow> 'v run" where
  "focus_btn r = r\<lparr>focus_st := Trigger\<rparr>"

definition onChange :: "'v \<Rightarrow> 'v run \<Rightarrow> 'v run" where
  "onChange v r = r\<lparr>calls := calls r @ [v]\<rparr>"

definition preventDefault :: "'v run \<Rightarrow> 'v run" where
  "preventDefault r = r\<lparr>prevented := True\<rparr>"

definition throw :: "js_error \<Rightarrow> 'v run \<Rightarrow> 'v run" where
  "throw e r = r\<lparr>thrown := Some e\<rparr>"

text \<open>Statements run in order; once one has thrown, the rest of the handler is skipped.\<close>

fun block :: "('v run \<Rightarrow> 'v run) list \<Rightarrow> 'v run \<Rightarrow> 'v run" where
  "block [] r = r"
| "block (s # ss) r = (case thrown r of Some e \<Rightarrow> r | None \<Rightarrow> block ss (s r))"

definition if_stmt :: "bool \<Rightarrow> ('v run \<Rightarrow> 'v run) list \<Rightarrow> 'v run \<Rightarrow> 'v run" where
  "if_stmt c ss r = (if c then block ss r else r)"

subsection \<open>The handlers\<close>

text \<open>
  \<^verbatim>\<open>const next = options[j]; onChange(next.value);\<close> The read of \<^verbatim>\<open>.value\<close> throws
  when \<^verbatim>\<open>options[j]\<close> is \<^verbatim>\<open>undefined\<close>.
\<close>

definition select_at :: "'v CategoryOption list \<Rightarrow> int option \<Rightarrow> 'v run \<Rightarrow> 'v run" where
  "select_at options j r =
     (case js_index options j of
        None \<Rightarrow> throw TypeError r
      | Some next \<Rightarrow> onChange (opt_value next) r)"

text \<open>
  The \<^verbatim>\<open>onKeyDown\<close> of the root element, the same statement for statement in both
  components. \<open>isOpen\<close> and \<open>selected\<close> are the values of the render the handler
  closes over; \<open>key\<close> is \<^verbatim>\<open>e.key\<close>.
\<close>

definition onKeyDown ::
  "'v CategoryOption list \<Rightarrow> 'v \<Rightarrow> bool \<Rightarrow> string \<Rightarrow> 'v run \<Rightarrow> 'v run" where
  "onKeyDown options selected isOpen key r =
     (if \<not> isOpen then r
      else
        let n = int (length options);
            i = max 0 (idxSelected options selected)
        in block
             [if_stmt (key = ''Escape'') [setIsOpen False, focus_btn],
              if_stmt (key = ''ArrowDown'')
                [preventDefault, select_at options (js_rem (i + 1) n)],
              if_stmt (key = ''ArrowUp'')
                [preventDefault, select_at options (js_rem (i - 1 + n) n)],
              if_stmt (key = ''Enter'' \<or> key = '' '')
                [preventDefault, setIsOpen False, focus_btn]]
             r)"

text \<open>Trigger button: \<^verbatim>\<open>onClick={() => setIsOpen((v) => !v)}\<close>\<close>

definition trigger_onClick :: "'v run \<Rightarrow> 'v run" where
  "trigger_onClick r = setIsOpen (\<not> open_st r) r"

text \<open>
  Option row:
  \<^verbatim>\<open>onClick={() => { onChange(opt.value); setIsOpen(false); btnRef.current?.focus(); }}\<close>
\<close>

definition option_onClick :: "'v CategoryOption \<Rightarrow> 'v run \<Rightarrow> 'v run" where
  "option_onClick opt r = block [onChange (opt_value opt), setIsOpen False, focus_btn] r"

text \<open>Overlay: \<^verbatim>\<open>onClick={() => setIsOpen(false)}\<close>\<close>

definition overlay_onClick :: "'v run \<Rightarrow> 'v run" where
  "overlay_onClick r = setIsOpen False r"

subsection \<open>The component between events\<close>

text \<open>
  The events a user can deliver. The overlay is rendered only while \<^verbatim>\<open>isOpen\<close> holds,
  so a click on the absent overlay reaches no handler. The option rows are mounted
  while \<^verbatim>\<open>isOpen\<close> holds and, under \<^verbatim>\<open>AnimatePresence\<close>, for the length of the exit
  animation after it; their \<^verbatim>\<open>onClick\<close> does not test \<^verbatim>\<open>isOpen\<close>. Time is not modelled,
  so a click on row \<open>j\<close> reaches the row's handler whenever there is a row of that
  position, the control open or just closed.
\<close>

datatype event = KeyDown string | TriggerClick | OptionClick nat | OverlayClick

definition dispatch ::
  "'v CategoryOption list \<Rightarrow> 'v \<Rightarrow> bool \<Rightarrow> event \<Rightarrow> 'v run \<Rightarrow> 'v run" where
  "dispatch options selected is_open ev r =
     (case ev of
        KeyDown key \<Rightarrow> onKeyDown options selected is_open key r
      | TriggerClick \<Rightarrow> trigger_onClick r
      | OptionClick j \<Rightarrow> if j < length options then option_onClick (options ! j) r else r
      | OverlayClick \<Rightarrow> if is_open then overlay_onClick r else r)"

text \<open>
  \<^verbatim>\<open>useEffect(() => { if (isOpen) listRef.current?.focus(); }, [isOpen])\<close>: after a render
  in which \<^verbatim>\<open>isOpen\<close> has changed, the list takes the focus when the control is open.
\<close>

definition focus_effect :: "bool \<Rightarrow> bool \<Rightarrow> focus \<Rightarrow> focus" where
  "focus_effect was_open now_open f = (if now_open \<noteq> was_open \<and> now_open then ListBox else f)"

text \<open>
  The control together with its Host. The Host owns \<open>host_selected\<close> and passes it back
  as the \<^verbatim>\<open>selected\<close> prop; the control owns \<open>isOpen\<close>. \<open>notified\<close> is every value the
  Host has received through \<^verbatim>\<open>onChange\<close>, oldest first, and \<open>uncaught\<close> every error a
  handler has thrown.
\<close>

record 'v asc =
  host_selected :: 'v
  isOpen :: bool
  focused :: focus
  notified :: "'v list"
  uncaught :: "js_error list"

text \<open>A control as mounted: \<^verbatim>\<open>useState(false)\<close>.\<close>

definition mount :: "'v \<Rightarrow> 'v asc" where
  "mount selected =
     \<lparr>host_selected = selected, isOpen = False, focused = Elsewhere, notified = [],
      uncaught = []\<rparr>"

text \<open>
  One event, handled to completion, with a Host that stores each notified value before
  the next render (the last call wins).
\<close>

definition deliver :: "'v CategoryOption list \<Rightarrow> event \<Rightarrow> 'v asc \<Rightarrow> 'v asc" where
  "deliver options ev s =
     (let r = dispatch options (host_selected s) (isOpen s) ev
                \<lparr>open_st = isOpen s, focus_st = focused s, calls = [], prevented = False,
                 thrown = None\<rparr>
      in \<lparr>host_selected = (if calls r = [] then host_selected s else last (calls r)),
          isOpen = open_st r,
          focused = focus_effect (isOpen s) (open_st r) (focus_st r),
          notified = notified s @ calls r,
          uncaught = uncaught s @ (case thrown r of None \<Rightarrow> [] | Some e \<Rightarrow> [e])\<rparr>)"


section \<open>The password-reset form\<close>

subsection \<open>The values a response can carry\<close>

text \<open>
  \<^verbatim>\<open>response.data\<close> is whatever the server's body parses to, so it is modelled as a
  JavaScript value and not as the object the page expects. \<open>'n\<close> is the type of numbers;
  all that matters of a number here is whether it is zero. The properties of an object
  are a map from names to values.
\<close>

datatype 'n js_value =
    JUndefined
  | JNull
  | JBool bool
  | JNum 'n
  | JStr string
  | JArr "'n js_value list"
  | JObj "string \<Rightarrow> 'n js_value option"

text \<open>
  \<^verbatim>\<open>ToBoolean\<close>, as \<^verbatim>\<open>||\<close> applies it: \<^verbatim>\<open>undefined\<close>, \<^verbatim>\<open>null\<close>, \<^verbatim>\<open>false\<close>, zero and the empty
  string are falsy, every array and object is truthy.
\<close>

fun truthy :: "'n::zero js_value \<Rightarrow> bool" where
  "truthy JUndefined = False"
| "truthy JNull = False"
| "truthy (JBool b) = b"
| "truthy (JNum x) = (x \<noteq> 0)"
| "truthy (JStr s) = (s \<noteq> [])"
| "truthy (JArr xs) = True"
| "truthy (JObj obj) = True"

text \<open>\<^verbatim>\<open>a || b\<close> on values.\<close>

definition js_or_value :: "'n::zero js_value \<Rightarrow> 'n js_value \<Rightarrow> 'n js_value" where
  "js_or_value a b = (if truthy a then a else b)"

text \<open>
  The read \<^verbatim>\<open>v.message\<close>: a \<^verbatim>\<open>TypeError\<close> on \<^verbatim>\<open>undefined\<close> and \<^verbatim>\<open>null\<close>; the property of
  an object when it has one of that name; \<^verbatim>\<open>undefined\<close> otherwise, also on booleans,
  numbers, strings and arrays, none of which has a \<^verbatim>\<open>message\<close>.
\<close>

fun read_message :: "'n js_value \<Rightarrow> js_error + 'n js_value" where
  "read_message JUndefined = Inl TypeError"
| "read_message JNull = Inl TypeError"
| "read_message (JObj obj) =
     Inr (case obj ''message'' of None \<Rightarrow> JUndefined | Some v \<Rightarrow> v)"
| "read_message (JBool b) = Inr JUndefined"
| "read_message (JNum x) = Inr JUndefined"
| "read_message (JStr s) = Inr JUndefined"
| "read_message (JArr xs) = Inr JUndefined"

subsection \<open>The submit handler\<close>

text \<open>
  How the promise of \<^verbatim>\<open>axios.post\<close> settles: fulfilled, with the \<^verbatim>\<open>data\<close> of the response
  object axios resolves with, or rejected (no answer, a status outside 2xx, a timeout).
\<close>

datatype rejection = NetworkError | HttpError nat | RequestTimeout

datatype 'n post_outcome = Fulfilled "'n js_value" | Rejected rejection

text \<open>
  What the \<^verbatim>\<open>catch\<close> clause can receive: the reason of a rejected request, or an error
  thrown by the \<^verbatim>\<open>try\<close> body itself.
\<close>

datatype caught = RejectedWith rejection | Threw js_error

text \<open>
  The component state of \<^verbatim>\<open>ForgotPassword\<close>, four \<^verbatim>\<open>useState\<close> cells, and what its
  submit handler does to the outside: the POST requests it issues (URL and the
  \<^verbatim>\<open>email\<close> field of the body) and what it writes with \<^verbatim>\<open>console.error\<close>. The
  \<^verbatim>\<open>message\<close> cell holds whatever \<^verbatim>\<open>setMessage\<close> is given, which need not be a string.
\<close>

record 'n fp_state =
  email :: string
  message :: "'n js_value"
  error :: string
  isLoading :: bool
  posts :: "(string \<times> string) list"
  console :: "caught list"
  submit_prevented :: bool

text \<open>
  \<^verbatim>\<open>catch (err) { console.error(err); setError("Error sending reset email. Please try again."); }\<close>
\<close>

definition catch_clause :: "caught \<Rightarrow> 'n fp_state \<Rightarrow> 'n fp_state" where
  "catch_clause err s =
     s\<lparr>console := console s @ [err],
       error := ''Error sending reset email. Please try again.''\<rparr>"

text \<open>
  \<^verbatim>\<open>handleForgotPassword\<close>, with \<open>backend\<close> for \<^verbatim>\<open>import.meta.env.VITE_BACKEND_URL\<close> and
  the settlement of the request as an argument. A rejection goes to the \<^verbatim>\<open>catch\<close>
  clause, and so does an error thrown by the read of \<^verbatim>\<open>response.data.message\<close>, which
  stands inside the \<^verbatim>\<open>try\<close>. The \<^verbatim>\<open>finally\<close> is the last step.
\<close>

definition handleForgotPassword ::
  "string \<Rightarrow> 'n::zero post_outcome \<Rightarrow> 'n fp_state \<Rightarrow> 'n fp_state" where
  "handleForgotPassword backend outcome s0 =
     (let s1 = s0\<lparr>submit_prevented := True\<rparr>;
          s2 = s1\<lparr>message := JStr ''''\<rparr>;
          s3 = s2\<lparr>error := ''''\<rparr>;
          s4 = s3\<lparr>isLoading := True\<rparr>;
          s5 = s4\<lparr>posts := posts s4 @ [(backend @ ''/forgot-password'', email s4)]\<rparr>;
          s6 = (case outcome of
                  Rejected err \<Rightarrow> catch_clause (RejectedWith err) s5
                | Fulfilled data \<Rightarrow>
                    (case read_message data of
                       Inl e \<Rightarrow> catch_clause (Threw e) s5
                     | Inr m \<Rightarrow>
                         s5\<lparr>message := js_or_value m (JStr ''Password reset link sent!'')\<rparr>))
      in s6\<lparr>isLoading := False\<rparr>)"

text \<open>The form as mounted: every \<^verbatim>\<open>useState\<close> cell at its initial value.\<close>

definition fp_mount :: "'n fp_state" where
  "fp_mount =
     \<lparr>email = '''', message = JStr '''', error = '''', isLoading = False, posts = [],
      console = [], submit_prevented = False\<rparr>"

text \<open>
  The success message in the specification's words, kept apart from the handler to be
  compared with it: the \<^verbatim>\<open>message\<close> field of the response body, or the default string
  when that field is absent.
\<close>

definition spec_success_message :: "'n js_value option \<Rightarrow> 'n js_value" where
  "spec_success_message msg =
     (case msg of None \<Rightarrow> JStr ''Password reset link sent!'' | Some m \<Rightarrow> m)"


section \<open>Facts about the embedding\<close>

lemma js_rem_nonneg: "0 \<le> a \<Longrightarrow> 0 < b \<Longrightarrow> js_rem a b = Some (a mod b)"
  by (cases "a = 0") (simp_all add: js_rem_def)

lemma js_rem_zero: "js_rem a 0 = None"
  by (simp add: js_rem_def)

lemma js_index_in_range:
  "0 \<le> k \<Longrightarrow> k < int (length xs) \<Longrightarrow> js_index xs (Some k) = Some (xs ! nat k)"
  by (simp add: js_index_def)

lemma js_index_NaN: "js_index xs None = None"
  by (simp add: js_index_def)

lemma findIndex_from_absent:
  "v \<notin> opt_value ` set xs \<Longrightarrow> findIndex_from (\<lambda>opt. opt_value opt = v) xs k = - 1"
  by (induction xs arbitrary: k) auto

lemma findIndex_from_distinct:
  "distinct (map opt_value xs) \<Longrightarrow> i < length xs \<Longrightarrow>
   findIndex_from (\<lambda>opt. opt_value opt = opt_value (xs ! i)) xs k = k + int i"
proof (induction xs arbitrary: i k)
  case Nil
  then show ?case by simp
next
  case (Cons x xs)
  show ?case
  proof (cases i)
    case 0
    then show ?thesis by simp
  next
    case (Suc j)
    with Cons.prems have j: "j < length xs" and d: "distinct (map opt_value xs)"
      and nx: "opt_value x \<notin> opt_value ` set xs"
      by auto
    from j have "opt_value (xs ! j) \<in> opt_value ` set xs" by simp
    with nx have "opt_value x \<noteq> opt_value (xs ! j)" by metis
    with Cons.IH [OF d j, of "k + 1"] Suc show ?thesis by simp
  qed
qed

lemma findIndex_from_bounds:
  "findIndex_from p xs k = - 1 \<or>
   (k \<le> findIndex_from p xs k \<and> findIndex_from p xs k < k + int (length xs))"
proof (induction xs arbitrary: k)
  case Nil
  then show ?case by simp
next
  case (Cons x xs)
  from Cons.IH [of "k + 1"] show ?case by auto
qed

lemma idxSelected_bounds:
  "options \<noteq> [] \<Longrightarrow> 0 \<le> idxSelected options v \<and> idxSelected options v < int (length options)"
  using findIndex_from_bounds [of "\<lambda>opt. opt_value opt = v" options 0]
  by (auto simp: idxSelected_def findIndex_def)

lemma idxSelected_nonneg: "0 \<le> idxSelected options v"
  by (simp add: idxSelected_def)

lemma idxSelected_at:
  "distinct (map opt_value options) \<Longrightarrow> i < length options \<Longrightarrow>
   idxSelected options (opt_value (options ! i)) = int i"
  using findIndex_from_distinct [of options i 0]
  by (simp add: idxSelected_def findIndex_def)

lemma idxSelected_absent:
  "v \<notin> opt_value ` set options \<Longrightarrow> idxSelected options v = 0"
  by (simp add: idxSelected_def findIndex_def findIndex_from_absent)

lemma onKeyDown_closed: "onKeyDown options selected False key r = r"
  by (simp add: onKeyDown_def)

lemma onKeyDown_Escape:
  "thrown r = None \<Longrightarrow>
   onKeyDown options selected True ''Escape'' r = r\<lparr>open_st := False, focus_st := Trigger\<rparr>"
  by (simp add: onKeyDown_def if_stmt_def setIsOpen_def focus_btn_def Let_def)

lemma onKeyDown_Enter:
  "thrown r = None \<Longrightarrow>
   onKeyDown options selected True ''Enter'' r =
     r\<lparr>prevented := True, open_st := False, focus_st := Trigger\<rparr>"
  by (simp add: onKeyDown_def if_stmt_def setIsOpen_def focus_btn_def preventDefault_def Let_def)

lemma onKeyDown_Space:
  "thrown r = None \<Longrightarrow>
   onKeyDown options selected True '' '' r =
     r\<lparr>prevented := True, open_st := False, focus_st := Trigger\<rparr>"
  by (simp add: onKeyDown_def if_stmt_def setIsOpen_def focus_btn_def preventDefault_def Let_def)

lemma select_at_in_range:
  "0 \<le> k \<Longrightarrow> k < int (length options) \<Longrightarrow>
   select_at options (Some k) r = r\<lparr>calls := calls r @ [opt_value (options ! nat k)]\<rparr>"
  by (simp add: select_at_def js_index_def onChange_def)

lemma select_at_NaN: "select_at options None r = r\<lparr>thrown := Some TypeError\<rparr>"
  by (simp add: select_at_def js_index_def throw_def)

lemma case_thrown_same: "(case thrown x of None \<Rightarrow> x | Some e \<Rightarrow> x) = x"
  by (simp split: option.split)

lemma onKeyDown_ArrowDown_raw:
  "thrown r = None \<Longrightarrow>
   onKeyDown options selected True ''ArrowDown'' r =
     select_at options
       (js_rem (max 0 (idxSelected options selected) + 1) (int (length options)))
       (r\<lparr>prevented := True\<rparr>)"
  by (simp add: onKeyDown_def if_stmt_def preventDefault_def Let_def split: option.split)

lemma onKeyDown_ArrowUp_raw:
  "thrown r = None \<Longrightarrow>
   onKeyDown options selected True ''ArrowUp'' r =
     select_at options
       (js_rem (max 0 (idxSelected options selected) - 1 + int (length options))
          (int (length options)))
       (r\<lparr>prevented := True\<rparr>)"
  by (simp add: onKeyDown_def if_stmt_def preventDefault_def Let_def split: option.split)

lemma onKeyDown_ArrowDown:
  assumes "options \<noteq> []" and "thrown r = None"
  shows "onKeyDown options selected True ''ArrowDown'' r =
           r\<lparr>prevented := True,
             calls := calls r @
               [opt_value (options ! nat ((idxSelected options selected + 1) mod int (length options)))]\<rparr>"
proof -
  let ?n = "int (length options)"
  let ?i = "idxSelected options selected"
  from assms(1) have n: "0 < ?n" by simp
  have i: "0 \<le> ?i" by (rule idxSelected_nonneg)
  have nn: "0 \<le> ?i + 1" using i by linarith
  have rem: "js_rem (?i + 1) ?n = Some ((?i + 1) mod ?n)"
    using nn n by (rule js_rem_nonneg)
  have rng: "0 \<le> (?i + 1) mod ?n" "(?i + 1) mod ?n < ?n"
    using n by simp_all
  have mx: "max 0 ?i = ?i" using i by simp
  show ?thesis
    using select_at_in_range [OF rng, of "r\<lparr>prevented := True\<rparr>"]
    unfolding onKeyDown_ArrowDown_raw [OF assms(2)] mx rem by simp
qed

lemma onKeyDown_ArrowUp:
  assumes "options \<noteq> []" and "thrown r = None"
  shows "onKeyDown options selected True ''ArrowUp'' r =
           r\<lparr>prevented := True,
             calls := calls r @
               [opt_value (options ! nat ((idxSelected options selected - 1 + int (length options))
                   mod int (length options)))]\<rparr>"
proof -
  let ?n = "int (length options)"
  let ?i = "idxSelected options selected"
  from assms(1) have n: "0 < ?n" by simp
  have i: "0 \<le> ?i" by (rule idxSelected_nonneg)
  have n1: "1 \<le> ?n" using assms(1) by (cases options) simp_all
  have nn: "0 \<le> ?i - 1 + ?n" using i n1 by linarith
  have rem: "js_rem (?i - 1 + ?n) ?n = Some ((?i - 1 + ?n) mod ?n)"
    using nn n by (rule js_rem_nonneg)
  have rng: "0 \<le> (?i - 1 + ?n) mod ?n" "(?i - 1 + ?n) mod ?n < ?n"
    using n by simp_all
  have mx: "max 0 ?i = ?i" using i by simp
  show ?thesis
    using select_at_in_range [OF rng, of "r\<lparr>prevented := True\<rparr>"]
    unfolding onKeyDown_ArrowUp_raw [OF assms(2)] mx rem by simp
qed

lemma onKeyDown_Arrow_empty:
  assumes "thrown r = None" and "key = ''ArrowDown'' \<or> key = ''ArrowUp''"
  shows "onKeyDown [] selected True key r = r\<lparr>prevented := True, thrown := Some TypeError\<rparr>"
  using assms
  by (auto simp: onKeyDown_ArrowDown_raw onKeyDown_ArrowUp_raw js_rem_def select_at_NaN)


lemma nat_succ_mod: "nat ((int a + 1) mod int n) = Suc a mod n"
proof -
  have "(int a + 1) mod int n = int (Suc a mod n)"
    by (simp add: zmod_int add.commute)
  then show ?thesis by simp
qed

lemma deliver_closed_key: "\<not> isOpen s \<Longrightarrow> deliver options (KeyDown key) s = s"
  by (cases s) (simp add: deliver_def dispatch_def onKeyDown_def focus_effect_def)

lemma deliver_closed_overlay: "\<not> isOpen s \<Longrightarrow> deliver options OverlayClick s = s"
  by (cases s) (simp add: deliver_def dispatch_def focus_effect_def)

lemma deliver_overlay:
  "isOpen s \<Longrightarrow> deliver options OverlayClick s = s\<lparr>isOpen := False\<rparr>"
  by (cases s) (simp add: deliver_def dispatch_def overlay_onClick_def setIsOpen_def focus_effect_def)

lemma deliver_Escape:
  "isOpen s \<Longrightarrow> deliver options (KeyDown ''Escape'') s = s\<lparr>isOpen := False, focused := Trigger\<rparr>"
  by (cases s) (simp add: deliver_def dispatch_def onKeyDown_Escape focus_effect_def)

lemma deliver_Enter:
  "isOpen s \<Longrightarrow> deliver options (KeyDown ''Enter'') s = s\<lparr>isOpen := False, focused := Trigger\<rparr>"
  by (cases s) (simp add: deliver_def dispatch_def onKeyDown_Enter focus_effect_def)

lemma deliver_Space:
  "isOpen s \<Longrightarrow> deliver options (KeyDown '' '') s = s\<lparr>isOpen := False, focused := Trigger\<rparr>"
  by (cases s) (simp add: deliver_def dispatch_def onKeyDown_Space focus_effect_def)

lemma deliver_trigger:
  "deliver options TriggerClick s =
     s\<lparr>isOpen := \<not> isOpen s, focused := (if isOpen s then focused s else ListBox)\<rparr>"
  by (cases s) (simp add: deliver_def dispatch_def trigger_onClick_def setIsOpen_def focus_effect_def)

lemma deliver_option:
  "isOpen s \<Longrightarrow> j < length options \<Longrightarrow>
   deliver options (OptionClick j) s =
     s\<lparr>host_selected := opt_value (options ! j), isOpen := False, focused := Trigger,
       notified := notified s @ [opt_value (options ! j)]\<rparr>"
  by (cases s)
    (simp add: deliver_def dispatch_def option_onClick_def onChange_def setIsOpen_def
      focus_btn_def focus_effect_def)

lemma deliver_ArrowDown:
  assumes "options \<noteq> []" and "isOpen s"
  shows "deliver options (KeyDown ''ArrowDown'') s =
           s\<lparr>host_selected :=
               opt_value (options ! nat ((idxSelected options (host_selected s) + 1)
                 mod int (length options))),
             notified := notified s @
               [opt_value (options ! nat ((idxSelected options (host_selected s) + 1)
                 mod int (length options)))]\<rparr>"
  using assms(2)
  by (cases s) (simp add: deliver_def dispatch_def onKeyDown_ArrowDown [OF assms(1)] focus_effect_def)

lemma deliver_ArrowUp:
  assumes "options \<noteq> []" and "isOpen s"
  shows "deliver options (KeyDown ''ArrowUp'') s =
           s\<lparr>host_selected :=
               opt_value (options ! nat ((idxSelected options (host_selected s) - 1
                 + int (length options)) mod int (length options))),
             notified := notified s @
               [opt_value (options ! nat ((idxSelected options (host_selected s) - 1
                 + int (length options)) mod int (length options)))]\<rparr>"
  using assms(2)
  by (cases s) (simp add: deliver_def dispatch_def onKeyDown_ArrowUp [OF assms(1)] focus_effect_def)

lemma deliver_Arrow_empty:
  assumes "isOpen s" and "key = ''ArrowDown'' \<or> key = ''ArrowUp''"
  shows "deliver [] (KeyDown key) s = s\<lparr>uncaught := uncaught s @ [TypeError]\<rparr>"
  using assms(1)
  by (cases s) (simp add: deliver_def dispatch_def onKeyDown_Arrow_empty [OF _ assms(2)] focus_effect_def)

lemma arrow_down_iter:
  assumes d: "distinct (map opt_value options)" and i: "i < length options"
    and o: "isOpen s" and h: "host_selected s = opt_value (options ! i)"
  shows "(deliver options (KeyDown ''ArrowDown'') ^^ k) s =
           s\<lparr>host_selected := opt_value (options ! ((i + k) mod length options)),
             notified := notified s @
               map (\<lambda>j. opt_value (options ! ((i + j) mod length options))) [1..<Suc k]\<rparr>"
proof (induction k)
  case 0
  show ?case using i h [symmetric] by simp
next
  case (Suc k)
  let ?N = "length options"
  let ?sk = "(deliver options (KeyDown ''ArrowDown'') ^^ k) s"
  from i have ne: "options \<noteq> []" by auto
  from ne have N: "0 < ?N" by simp
  have open_k: "isOpen ?sk" using o by (simp add: Suc.IH)
  have sel_k: "host_selected ?sk = opt_value (options ! ((i + k) mod ?N))"
    by (simp add: Suc.IH)
  have idx_k: "idxSelected options (host_selected ?sk) = int ((i + k) mod ?N)"
    unfolding sel_k using d N by (intro idxSelected_at) simp_all
  have nxt: "nat ((int ((i + k) mod ?N) + 1) mod int ?N) = (i + Suc k) mod ?N"
    by (simp add: nat_succ_mod mod_Suc_eq)
  have "(deliver options (KeyDown ''ArrowDown'') ^^ Suc k) s =
          deliver options (KeyDown ''ArrowDown'') ?sk"
    by simp
  also have "\<dots> = ?sk\<lparr>host_selected := opt_value (options ! ((i + Suc k) mod ?N)),
      notified := notified ?sk @ [opt_value (options ! ((i + Suc k) mod ?N))]\<rparr>"
    unfolding deliver_ArrowDown [OF ne open_k] idx_k nxt ..
  also have "\<dots> = s\<lparr>host_selected := opt_value (options ! ((i + Suc k) mod ?N)),
      notified := notified s @
        map (\<lambda>j. opt_value (options ! ((i + j) mod ?N))) [1..<Suc (Suc k)]\<rparr>"
    by (simp add: Suc.IH)
  finally show ?case .
qed


lemma find_absent:
  "v \<notin> opt_value ` set xs \<Longrightarrow> find (\<lambda>opt. opt_value opt = v) xs = None"
  by (induction xs) auto

text \<open>With at least one option no handler throws, whatever the event and the selection.\<close>

lemma thrown_onKeyDown:
  assumes "options \<noteq> []" and "thrown r = None"
  shows "thrown (onKeyDown options selected is_open key r) = None"
proof (cases is_open)
  case False
  then show ?thesis using assms(2) by (simp add: onKeyDown_closed)
next
  case True
  consider "key = ''ArrowDown''" | "key = ''ArrowUp''"
    | "key \<noteq> ''ArrowDown''" "key \<noteq> ''ArrowUp''"
    by blast
  then show ?thesis
  proof cases
    case 1
    then show ?thesis using True assms by (simp add: onKeyDown_ArrowDown)
  next
    case 2
    then show ?thesis using True assms by (simp add: onKeyDown_ArrowUp)
  next
    case 3
    then show ?thesis using True assms(2)
      by (simp add: onKeyDown_def if_stmt_def setIsOpen_def focus_btn_def preventDefault_def
          Let_def)
  qed
qed

lemma deliver_no_throw:
  assumes "options \<noteq> []"
  shows "uncaught (deliver options ev s) = uncaught s"
proof (cases ev)
  case (KeyDown key)
  then show ?thesis
    by (simp add: deliver_def dispatch_def Let_def thrown_onKeyDown [OF assms])
next
  case TriggerClick
  then show ?thesis by (simp add: deliver_trigger)
next
  case (OptionClick j)
  then show ?thesis
    by (simp add: deliver_def dispatch_def Let_def option_onClick_def onChange_def
        setIsOpen_def focus_btn_def)
next
  case OverlayClick
  then show ?thesis
    by (simp add: deliver_def dispatch_def Let_def overlay_onClick_def setIsOpen_def)
qed

text \<open>SortFilter's two options are an OptionSet, and its label is the selected one's.\<close>

lemma sort_options_distinct:
  "distinct (map opt_value (sort_options labels)) \<and> length (sort_options labels) = 2"
  by (simp add: sort_options_def)

lemma sort_selectedLabel_cases:
  "sort_selectedLabel labels selected =
     (case selected of mostRecent \<Rightarrow> lbl_mostRecent labels | oldest \<Rightarrow> lbl_oldest labels)"
  by (cases selected)
    (simp_all add: sort_selectedLabel_def sort_options_def idxSelected_def findIndex_def
      js_index_def js_nullish_def)


text \<open>
  A \<^verbatim>\<open>selected\<close> value that no option carries: the trigger shows the placeholder and
  the index resolves to \<open>0\<close>, for every option list.
\<close>

lemma unknown_selected_label_index:
  assumes "selected \<notin> opt_value ` set options"
  shows "selectedLabel options selected placeholder = placeholder
       \<and> idxSelected options selected = 0"
  using assms
  by (simp add: selectedLabel_def js_or_def find_absent idxSelected_absent)

text \<open>
  A click on a row that is still mounted after the control has closed calls
  \<^verbatim>\<open>onChange\<close> all the same.
\<close>

lemma deliver_option_closed:
  "\<not> isOpen s \<Longrightarrow> j < length options \<Longrightarrow>
   deliver options (OptionClick j) s =
     s\<lparr>host_selected := opt_value (options ! j), focused := Trigger,
       notified := notified s @ [opt_value (options ! j)]\<rparr>"
  by (cases s)
    (simp add: deliver_def dispatch_def option_onClick_def onChange_def setIsOpen_def
      focus_btn_def focus_effect_def)

text \<open>The form: what the \<^verbatim>\<open>message\<close> read and the \<^verbatim>\<open>||\<close> give on an object body.\<close>

lemma message_of_object:
  "message (handleForgotPassword backend (Fulfilled (JObj obj)) s) =
     (case obj ''message'' of
        None \<Rightarrow> JStr ''Password reset link sent!''
      | Some m \<Rightarrow> if truthy m then m else JStr ''Password reset link sent!'')"
  by (simp add: handleForgotPassword_def js_or_value_def Let_def split: option.split)

lemma error_of_object:
  "error (handleForgotPassword backend (Fulfilled (JObj obj)) s) = ''''"
  by (simp add: handleForgotPassword_def Let_def)


section \<open>The claims\<close>

text \<open>
  C1. For an option list with pairwise distinct values (an OptionSet) of size at least
  one, a start index \<open>i\<close> and any \<open>k\<close>: pressing ArrowDown \<open>k\<close> times while the control
  is open, the Host storing each notified value before the next press, leaves the
  selection at index \<open>(i + k) mod N\<close>; \<^verbatim>\<open>onChange\<close> has been called exactly \<open>k\<close> more
  times, the \<open>j\<close>-th call carrying the value of the option at index \<open>(i + j) mod N\<close>; the
  control is still open and no handler has thrown. SortFilter's fixed two options are
  one such list: two presses from \<^verbatim>\<open>mostRecent\<close> notify \<^verbatim>\<open>oldest\<close>, then \<^verbatim>\<open>mostRecent\<close>.
\<close>

theorem arrow_down_k_times:
  assumes "distinct (map opt_value options)" and "i < length options"
    and "isOpen s" and "host_selected s = opt_value (options ! i)"
  shows "idxSelected options
           (host_selected ((deliver options (KeyDown ''ArrowDown'') ^^ k) s))
           = int ((i + k) mod length options)
       \<and> host_selected ((deliver options (KeyDown ''ArrowDown'') ^^ k) s)
           = opt_value (options ! ((i + k) mod length options))
       \<and> notified ((deliver options (KeyDown ''ArrowDown'') ^^ k) s)
           = notified s @ map (\<lambda>j. opt_value (options ! ((i + j) mod length options))) [1..<Suc k]
       \<and> length (notified ((deliver options (KeyDown ''ArrowDown'') ^^ k) s))
           = length (notified s) + k
       \<and> isOpen ((deliver options (KeyDown ''ArrowDown'') ^^ k) s)
       \<and> uncaught ((deliver options (KeyDown ''ArrowDown'') ^^ k) s) = uncaught s"
proof -
  from assms(2) have "0 < length options" by auto
  then have "(i + k) mod length options < length options" by (rule mod_less_divisor)
  then have "idxSelected options (opt_value (options ! ((i + k) mod length options)))
      = int ((i + k) mod length options)"
    using assms(1) by (intro idxSelected_at)
  then show ?thesis
    using assms(3) by (simp add: arrow_down_iter [OF assms])
qed

theorem arrow_down_k_times_witness:
  "distinct (map opt_value (sort_options default_labels))
   \<and> 0 < length (sort_options default_labels)
   \<and> isOpen (deliver (sort_options default_labels) TriggerClick (mount mostRecent))
   \<and> host_selected (deliver (sort_options default_labels) TriggerClick (mount mostRecent))
       = opt_value (sort_options default_labels ! 0)
   \<and> notified ((deliver (sort_options default_labels) (KeyDown ''ArrowDown'') ^^ 2)
        (deliver (sort_options default_labels) TriggerClick (mount mostRecent)))
       = [oldest, mostRecent]
   \<and> host_selected ((deliver (sort_options default_labels) (KeyDown ''ArrowDown'') ^^ 2)
        (deliver (sort_options default_labels) TriggerClick (mount mostRecent)))
       = mostRecent"
  using arrow_down_k_times [of "sort_options default_labels" 0
      "deliver (sort_options default_labels) TriggerClick (mount mostRecent)" 2]
  by (simp add: sort_options_def default_labels_def deliver_trigger mount_def upt_rec)

text \<open>
  C2. The claim is that with no options an Arrow key is a no-op. On the code it is not:
  with \<open>n = 0\<close> the index \<^verbatim>\<open>(i + 1) % n\<close> is \<^verbatim>\<open>NaN\<close>, \<^verbatim>\<open>options[NaN]\<close> is
  \<^verbatim>\<open>undefined\<close>, and the read of \<^verbatim>\<open>.value\<close> throws a \<^verbatim>\<open>TypeError\<close>, for ArrowDown and
  ArrowUp alike. The control is opened on an empty option list and the key delivered: one
  uncaught error, and no notification.
\<close>

theorem arrow_on_empty_throws:
  "uncaught (deliver [] (KeyDown ''ArrowDown'') (deliver [] TriggerClick (mount ''''))) = [TypeError]
   \<and> uncaught (deliver [] (KeyDown ''ArrowUp'') (deliver [] TriggerClick (mount ''''))) = [TypeError]
   \<and> notified (deliver [] (KeyDown ''ArrowDown'') (deliver [] TriggerClick (mount ''''))) = []"
  by (simp add: deliver_trigger mount_def deliver_Arrow_empty)

text \<open>
  C3. Whenever the control is open, the Escape key and a click on the overlay each
  leave it closed, and neither calls \<^verbatim>\<open>onChange\<close>: the notifications received so far
  and the Host's selection are what they were, whatever happened before.
\<close>

theorem close_fires_nothing:
  assumes "isOpen s" and "ev = KeyDown ''Escape'' \<or> ev = OverlayClick"
  shows "isOpen (deliver options ev s) = False
       \<and> notified (deliver options ev s) = notified s
       \<and> host_selected (deliver options ev s) = host_selected s
       \<and> uncaught (deliver options ev s) = uncaught s"
  using assms by (auto simp: deliver_Escape deliver_overlay)

theorem close_fires_nothing_witness:
  "isOpen (deliver (sort_options default_labels) (KeyDown ''ArrowDown'')
      (deliver (sort_options default_labels) TriggerClick (mount mostRecent)))
   \<and> isOpen (deliver (sort_options default_labels) (KeyDown ''Escape'')
        (deliver (sort_options default_labels) (KeyDown ''ArrowDown'')
          (deliver (sort_options default_labels) TriggerClick (mount mostRecent)))) = False
   \<and> notified (deliver (sort_options default_labels) (KeyDown ''Escape'')
        (deliver (sort_options default_labels) (KeyDown ''ArrowDown'')
          (deliver (sort_options default_labels) TriggerClick (mount mostRecent)))) = [oldest]"
  using close_fires_nothing [of "deliver (sort_options default_labels) (KeyDown ''ArrowDown'')
      (deliver (sort_options default_labels) TriggerClick (mount mostRecent))"
      "KeyDown ''Escape''" "sort_options default_labels"]
  by (simp add: deliver_trigger mount_def deliver_ArrowDown sort_options_def default_labels_def
      idxSelected_def findIndex_def)

text \<open>
  C4. Enter or Space while the control is open closes it and moves the focus to the
  trigger, and does nothing else: no \<^verbatim>\<open>onChange\<close> call is made and the selection
  stays as it was.
\<close>

theorem enter_space_close_only:
  assumes "isOpen s" and "key = ''Enter'' \<or> key = '' ''"
  shows "deliver options (KeyDown key) s = s\<lparr>isOpen := False, focused := Trigger\<rparr>"
  using assms by (auto simp: deliver_Enter deliver_Space)

theorem enter_space_close_only_witness:
  "isOpen (deliver (sort_options default_labels) TriggerClick (mount mostRecent))
   \<and> deliver (sort_options default_labels) (KeyDown ''Enter'')
        (deliver (sort_options default_labels) TriggerClick (mount mostRecent))
       = \<lparr>host_selected = mostRecent, isOpen = False, focused = Trigger, notified = [],
          uncaught = []\<rparr>"
  using enter_space_close_only [of "deliver (sort_options default_labels) TriggerClick (mount mostRecent)"
      "''Enter''" "sort_options default_labels"]
  by (simp add: deliver_trigger mount_def)

text \<open>
  C5. For an OptionSet of size \<open>N\<close> at least one and current index \<open>i\<close>, ArrowUp
  while the control is open calls \<^verbatim>\<open>onChange\<close> once, at once, with the value of the
  option at index \<open>(i - 1 + N) mod N\<close>, which becomes the selection index; that index
  is \<open>N - 1\<close> when \<open>i\<close> is \<open>0\<close> and \<open>i - 1\<close> otherwise.
\<close>

theorem arrow_up_wraps:
  assumes "distinct (map opt_value options)" and "i < length options"
    and "isOpen s" and "host_selected s = opt_value (options ! i)"
  shows "deliver options (KeyDown ''ArrowUp'') s =
           s\<lparr>host_selected :=
               opt_value (options ! nat ((int i - 1 + int (length options)) mod int (length options))),
             notified := notified s @
               [opt_value (options ! nat ((int i - 1 + int (length options)) mod int (length options)))]\<rparr>
       \<and> idxSelected options (host_selected (deliver options (KeyDown ''ArrowUp'') s))
           = (int i - 1 + int (length options)) mod int (length options)
       \<and> (int i - 1 + int (length options)) mod int (length options)
           = (if i = 0 then int (length options) - 1 else int i - 1)"
proof -
  let ?N = "int (length options)"
  let ?j = "(int i - 1 + ?N) mod ?N"
  from assms(2) have ne: "options \<noteq> []" by auto
  then have N: "0 < ?N" by simp
  have idx: "idxSelected options (host_selected s) = int i"
    unfolding assms(4) using assms(1,2) by (rule idxSelected_at)
  have step: "deliver options (KeyDown ''ArrowUp'') s =
      s\<lparr>host_selected := opt_value (options ! nat ?j),
        notified := notified s @ [opt_value (options ! nat ?j)]\<rparr>"
    unfolding deliver_ArrowUp [OF ne assms(3)] idx ..
  have j0: "0 \<le> ?j" and jN: "?j < ?N" using N by simp_all
  then have "nat ?j < length options" by linarith
  with assms(1) have "idxSelected options (opt_value (options ! nat ?j)) = int (nat ?j)"
    by (rule idxSelected_at)
  with j0 have idx': "idxSelected options (opt_value (options ! nat ?j)) = ?j" by simp
  have wrap: "?j = (if i = 0 then ?N - 1 else int i - 1)"
  proof (cases "i = 0")
    case True
    have "(?N - 1) mod ?N = ?N - 1" using N by (intro mod_pos_pos_trivial) simp_all
    with True show ?thesis by simp
  next
    case False
    then have "0 \<le> int i - 1" by simp
    moreover have "int i - 1 < ?N" using assms(2) by simp
    ultimately have "(int i - 1) mod ?N = int i - 1" by (rule mod_pos_pos_trivial)
    with False show ?thesis by simp
  qed
  show ?thesis
    unfolding step using idx' wrap by simp
qed

theorem arrow_up_wraps_witness:
  "distinct (map opt_value (sort_options default_labels))
   \<and> 0 < length (sort_options default_labels)
   \<and> isOpen (deliver (sort_options default_labels) TriggerClick (mount mostRecent))
   \<and> host_selected (deliver (sort_options default_labels) TriggerClick (mount mostRecent))
       = opt_value (sort_options default_labels ! 0)
   \<and> notified (deliver (sort_options default_labels) (KeyDown ''ArrowUp'')
        (deliver (sort_options default_labels) TriggerClick (mount mostRecent))) = [oldest]
   \<and> idxSelected (sort_options default_labels)
        (host_selected (deliver (sort_options default_labels) (KeyDown ''ArrowUp'')
          (deliver (sort_options default_labels) TriggerClick (mount mostRecent)))) = 1"
  using arrow_up_wraps [of "sort_options default_labels" 0
      "deliver (sort_options default_labels) TriggerClick (mount mostRecent)"]
  by (simp add: sort_options_def default_labels_def deliver_trigger mount_def
      idxSelected_def findIndex_def)

text \<open>
  C6. The claim is that a \<^verbatim>\<open>selected\<close> value that no option carries raises no error,
  shows the placeholder and resolves to index \<open>0\<close>. Label and index are as claimed, for
  every option list. The error is not excluded: on the empty option list every
  \<^verbatim>\<open>selected\<close> is such a value, and there an Arrow key on the open control throws the
  \<^verbatim>\<open>TypeError\<close> of C2. The handler is run on that input.
\<close>

theorem unknown_selected_empty_throws:
  "''zzz'' \<notin> opt_value ` set ([] :: string CategoryOption list)
   \<and> selectedLabel ([] :: string CategoryOption list) ''zzz'' ''All Categories''
       = ''All Categories''
   \<and> idxSelected ([] :: string CategoryOption list) ''zzz'' = 0
   \<and> uncaught (deliver [] (KeyDown ''ArrowDown'') (deliver [] TriggerClick (mount ''zzz'')))
       = [TypeError]"
  by (simp add: selectedLabel_def js_or_def idxSelected_def findIndex_def deliver_trigger
      mount_def deliver_Arrow_empty)

text \<open>
  C7. A click on the option row of position \<open>j\<close> while the control is open closes
  it, calls \<^verbatim>\<open>onChange\<close> exactly once, with the value of that row, and moves the focus
  to the trigger.
\<close>

theorem option_click_commits:
  assumes "isOpen s" and "j < length options"
  shows "deliver options (OptionClick j) s =
           s\<lparr>host_selected := opt_value (options ! j), isOpen := False, focused := Trigger,
             notified := notified s @ [opt_value (options ! j)]\<rparr>"
  using assms by (rule deliver_option)

theorem option_click_commits_witness:
  "isOpen (deliver (sort_options default_labels) TriggerClick (mount mostRecent))
   \<and> 1 < length (sort_options default_labels)
   \<and> deliver (sort_options default_labels) (OptionClick 1)
        (deliver (sort_options default_labels) TriggerClick (mount mostRecent))
       = \<lparr>host_selected = oldest, isOpen = False, focused = Trigger, notified = [oldest],
          uncaught = []\<rparr>"
  using option_click_commits
    [of "deliver (sort_options default_labels) TriggerClick (mount mostRecent)" 1
      "sort_options default_labels"]
  by (simp add: sort_options_def default_labels_def deliver_trigger mount_def)

text \<open>
  C8. In the closed state a key event, Escape included, and a click on the overlay
  change nothing: the state is the same, no notification is made, nothing is thrown.
  This holds for the events as delivered and for the two handlers run on a closed
  control.
\<close>

theorem close_when_closed_noop:
  assumes "\<not> isOpen s" and "\<not> open_st r"
  shows "deliver options (KeyDown key) s = s
       \<and> deliver options OverlayClick s = s
       \<and> onKeyDown options selected (open_st r) key r = r
       \<and> overlay_onClick r = r"
  using assms
  by (simp add: deliver_closed_key deliver_closed_overlay onKeyDown_closed overlay_onClick_def
      setIsOpen_def)

theorem close_when_closed_noop_witness:
  "\<not> isOpen (mount mostRecent)
   \<and> \<not> open_st \<lparr>open_st = False, focus_st = Elsewhere, calls = ([] :: SortValue list),
        prevented = False, thrown = None\<rparr>
   \<and> deliver (sort_options default_labels) (KeyDown ''Escape'') (mount mostRecent)
       = mount mostRecent
   \<and> deliver (sort_options default_labels) OverlayClick (mount mostRecent) = mount mostRecent
   \<and> overlay_onClick
        \<lparr>open_st = False, focus_st = Elsewhere, calls = [], prevented = False, thrown = None\<rparr>
       = \<lparr>open_st = False, focus_st = Elsewhere, calls = ([] :: SortValue list),
          prevented = False, thrown = None\<rparr>"
  using close_when_closed_noop
    [of "mount mostRecent"
      "\<lparr>open_st = False, focus_st = Elsewhere, calls = ([] :: SortValue list), prevented = False,
        thrown = None\<rparr>"
      "sort_options default_labels" "''Escape''" mostRecent]
  by (simp add: mount_def)

text \<open>
  C9. One submit issues exactly one POST, of the email, to the backend URL followed by
  \<^verbatim>\<open>/forgot-password\<close>, and ends with \<^verbatim>\<open>isLoading\<close> false. On a fulfilled request whose
  body is an object, the message set is the body's \<^verbatim>\<open>message\<close> field when that field is
  truthy (for a string: not empty) and the default string when it is absent or falsy,
  and no error is shown; a body that is a boolean, a number, a string or an array has no
  such field and gives the default string. On every rejection, of whatever kind, the one
  generic error string is shown and no message; the same holds for a fulfilled request
  whose body is \<^verbatim>\<open>null\<close> or \<^verbatim>\<open>undefined\<close>, where the read of \<^verbatim>\<open>message\<close> throws inside the
  \<^verbatim>\<open>try\<close>. No further request is made in any case.
\<close>

theorem forgot_password_submit:
  "posts (handleForgotPassword backend outcome s)
     = posts s @ [(backend @ ''/forgot-password'', email s)]
   \<and> isLoading (handleForgotPassword backend outcome s) = False
   \<and> message (handleForgotPassword backend (Fulfilled (JObj obj)) s)
       = (case obj ''message'' of
            None \<Rightarrow> JStr ''Password reset link sent!''
          | Some m \<Rightarrow> if truthy m then m else JStr ''Password reset link sent!'')
   \<and> message (handleForgotPassword backend (Fulfilled (JObj (obj(''message'' \<mapsto> JStr m)))) s)
       = (if m = [] then JStr ''Password reset link sent!'' else JStr m)
   \<and> error (handleForgotPassword backend (Fulfilled (JObj obj)) s) = ''''
   \<and> message (handleForgotPassword backend (Fulfilled (JBool b)) s)
       = JStr ''Password reset link sent!''
   \<and> message (handleForgotPassword backend (Fulfilled (JNum x)) s)
       = JStr ''Password reset link sent!''
   \<and> message (handleForgotPassword backend (Fulfilled (JStr body)) s)
       = JStr ''Password reset link sent!''
   \<and> message (handleForgotPassword backend (Fulfilled (JArr items)) s)
       = JStr ''Password reset link sent!''
   \<and> error (handleForgotPassword backend (Rejected e) s)
       = ''Error sending reset email. Please try again.''
   \<and> message (handleForgotPassword backend (Rejected e) s) = JStr ''''
   \<and> error (handleForgotPassword backend (Fulfilled JNull) s)
       = ''Error sending reset email. Please try again.''
   \<and> message (handleForgotPassword backend (Fulfilled JNull) s) = JStr ''''
   \<and> error (handleForgotPassword backend (Fulfilled JUndefined) s)
       = ''Error sending reset email. Please try again.''
   \<and> message (handleForgotPassword backend (Fulfilled JUndefined) s) = JStr ''''"
proof -
  have one_post: "posts (handleForgotPassword backend outcome s)
      = posts s @ [(backend @ ''/forgot-password'', email s)]"
    by (cases outcome)
      (simp_all add: handleForgotPassword_def catch_clause_def Let_def split: sum.split)
  have loaded: "isLoading (handleForgotPassword backend outcome s) = False"
    by (simp add: handleForgotPassword_def Let_def)
  have str: "message (handleForgotPassword backend
        (Fulfilled (JObj (obj(''message'' \<mapsto> JStr m)))) s)
      = (if m = [] then JStr ''Password reset link sent!'' else JStr m)"
    by (simp add: message_of_object)
  have others:
    "message (handleForgotPassword backend (Fulfilled (JBool b)) s)
       = JStr ''Password reset link sent!''"
    "message (handleForgotPassword backend (Fulfilled (JNum x)) s)
       = JStr ''Password reset link sent!''"
    "message (handleForgotPassword backend (Fulfilled (JStr body)) s)
       = JStr ''Password reset link sent!''"
    "message (handleForgotPassword backend (Fulfilled (JArr items)) s)
       = JStr ''Password reset link sent!''"
    by (simp_all add: handleForgotPassword_def js_or_value_def Let_def)
  have failed:
    "error (handleForgotPassword backend (Rejected e) s)
       = ''Error sending reset email. Please try again.''"
    "message (handleForgotPassword backend (Rejected e) s) = JStr ''''"
    "error (handleForgotPassword backend (Fulfilled JNull) s)
       = ''Error sending reset email. Please try again.''"
    "message (handleForgotPassword backend (Fulfilled JNull) s) = JStr ''''"
    "error (handleForgotPassword backend (Fulfilled JUndefined) s)
       = ''Error sending reset email. Please try again.''"
    "message (handleForgotPassword backend (Fulfilled JUndefined) s) = JStr ''''"
    by (simp_all add: handleForgotPassword_def catch_clause_def Let_def)
  from one_post loaded str others failed show ?thesis
    by (simp only: message_of_object error_of_object simp_thms)
qed

text \<open>
  C9, the specification's wording: it has the \<^verbatim>\<open>message\<close> field shown whenever it is
  present, and the default string whenever the request succeeds without one. A body
  whose \<^verbatim>\<open>message\<close> is the empty string shows the default string, since \<^verbatim>\<open>||\<close> takes the
  empty string for false; a fulfilled request with the body \<^verbatim>\<open>null\<close> shows no message at
  all, but the error string.
\<close>

theorem forgot_password_empty_message_counterexample:
  "message (handleForgotPassword ''https://api.example.com''
      (Fulfilled (JObj (Map.empty(''message'' \<mapsto> JStr ''''))))
      ((fp_mount :: int fp_state)\<lparr>email := ''user@example.com''\<rparr>))
     \<noteq> spec_success_message (Some (JStr ''''))
   \<and> message (handleForgotPassword ''https://api.example.com'' (Fulfilled JNull)
      ((fp_mount :: int fp_state)\<lparr>email := ''user@example.com''\<rparr>))
     \<noteq> spec_success_message None
   \<and> error (handleForgotPassword ''https://api.example.com'' (Fulfilled JNull)
      ((fp_mount :: int fp_state)\<lparr>email := ''user@example.com''\<rparr>))
     = ''Error sending reset email. Please try again.''"
  by (simp add: handleForgotPassword_def js_or_value_def catch_clause_def fp_mount_def
      spec_success_message_def Let_def)

text \<open>
  C10. A click on the trigger negates \<^verbatim>\<open>isOpen\<close>, so on an open control it closes
  it; it never calls \<^verbatim>\<open>onChange\<close> and leaves the selection alone.
\<close>

theorem trigger_click_toggles:
  "isOpen (deliver options TriggerClick s) = (\<not> isOpen s)
   \<and> notified (deliver options TriggerClick s) = notified s
   \<and> host_selected (deliver options TriggerClick s) = host_selected s
   \<and> uncaught (deliver options TriggerClick s) = uncaught s"
  by (simp add: deliver_trigger)

end
